theory Spec2Isabelle
  imports Complex_Main "HOL-Library.AList" "HOL-Library.Log_Nat"
begin

section \<open>Values, records and the remote store\<close>

text \<open>
  A PocketBase record is a JavaScript object: an ordered mapping from field names to
  values, modelled as an association list. The adapters never look inside a value, except
  for the field \<open>id\<close>. An \<open>Error\<close> is represented by its message; the normalisation
  \<^verbatim>\<open>err instanceof Error ? err : new Error(String(err))\<close> is the identity on it.
\<close>

type_synonym Error = string

datatype jsval = Str string | Num int | Bool bool

type_synonym RecordModel = "(string \<times> jsval) list"

text \<open>\<^verbatim>\<open>r.id\<close>: \<open>None\<close> stands for \<^verbatim>\<open>undefined\<close>, so that \<^verbatim>\<open>===\<close> is equality.\<close>

definition rec_id :: "RecordModel \<Rightarrow> jsval option" where
  "rec_id r = map_of r ''id''"

text \<open>
  Modelled from the spec: the reactive cell \<^verbatim>\<open>WritableState\<close> of
  src/lib/utils/state.svelte.js, which is not among the sources. It is a mutable
  container: reading its \<^verbatim>\<open>value\<close> gives the value written last. It invokes the start
  callback when the first observer attaches and the returned stop callback when the last
  observer detaches. The observed value has the type \<^verbatim>\<open>DataType | null | undefined\<close>.
\<close>

datatype 'a cell = Undefined | Null | Value 'a

text \<open>Truthiness: objects and arrays (also the empty array) are truthy.\<close>

fun truthy :: "'a cell \<Rightarrow> bool" where
  "truthy (Value _) = True"
| "truthy _ = False"

text \<open>Truthiness of an optional string: \<^verbatim>\<open>undefined\<close> and \<^verbatim>\<open>''\<close> are falsy.\<close>

fun nonempty :: "string option \<Rightarrow> string option" where
  "nonempty (Some (c # cs)) = Some (c # cs)"
| "nonempty _ = None"

subsection \<open>JavaScript numbers\<close>

text \<open>
  A JavaScript number is an IEEE 754 double: \<^verbatim>\<open>NaN\<close>, an infinity, or a finite value,
  represented by the real number it denotes (the two zeros are not told apart; the
  code never does). The page counter, \<^verbatim>\<open>totalPages\<close> and the argument of \<^verbatim>\<open>goToPage\<close>
  have this type: nothing in the code makes them whole numbers.
\<close>

datatype number = NaN | Fin real | PosInf | NegInf

text \<open>The comparisons \<^verbatim>\<open><\<close>, \<^verbatim>\<open>>\<close>, \<^verbatim>\<open><=\<close>, \<^verbatim>\<open>>=\<close>: false whenever an operand is \<^verbatim>\<open>NaN\<close>.\<close>

fun js_lt :: "number \<Rightarrow> number \<Rightarrow> bool" where
  "js_lt (Fin x) (Fin y) = (x < y)"
| "js_lt (Fin x) PosInf = True"
| "js_lt NegInf (Fin y) = True"
| "js_lt NegInf PosInf = True"
| "js_lt _ _ = False"

definition js_gt :: "number \<Rightarrow> number \<Rightarrow> bool" where
  "js_gt a b = js_lt b a"

definition js_le :: "number \<Rightarrow> number \<Rightarrow> bool" where
  "js_le a b = (a \<noteq> NaN \<and> b \<noteq> NaN \<and> (a = b \<or> js_lt a b))"

definition js_ge :: "number \<Rightarrow> number \<Rightarrow> bool" where
  "js_ge a b = js_le b a"

text \<open>
  Rounding of a real number to the nearest double, ties to the even significand.
  \<open>ilog2 x\<close> is the binary exponent of a positive \<open>x\<close>: the \<open>k\<close> with
  \<open>2 ^ k \<le> x < 2 ^ (k + 1)\<close>. A double has a significand of 53 bits and a least exponent
  of \<open>- 1074\<close>; a result of magnitude \<open>2 ^ 1024\<close> or more is an infinity.
\<close>

definition ilog2 :: "real \<Rightarrow> int" where
  "ilog2 x =
     (if 1 \<le> x then int (floorlog 2 (nat \<lfloor>x\<rfloor>)) - 1
      else - int (floorlog 2 (nat (\<lceil>1 / x\<rceil> - 1))))"

definition round_half_even :: "real \<Rightarrow> int" where
  "round_half_even q =
     (let f = \<lfloor>q\<rfloor>; r = q - of_int f
      in if r < 1 / 2 then f else if 1 / 2 < r then f + 1 else if even f then f else f + 1)"

definition round_double :: "real \<Rightarrow> number" where
  "round_double x =
     (if x = 0 then Fin 0
      else
        (let e = max (- 1074) (ilog2 \<bar>x\<bar> - 52);
             y = of_int (round_half_even (\<bar>x\<bar> / 2 powi e)) * 2 powi e
         in if 2 powi 1024 \<le> y then (if 0 < x then PosInf else NegInf)
            else Fin (sgn x * y)))"

text \<open>\<^verbatim>\<open>x++\<close> and \<^verbatim>\<open>x--\<close> on a number: \<^verbatim>\<open>x + 1\<close> and \<^verbatim>\<open>x - 1\<close> in double arithmetic.\<close>

fun js_inc :: "number \<Rightarrow> number" where
  "js_inc (Fin x) = round_double (x + 1)"
| "js_inc n = n"

fun js_dec :: "number \<Rightarrow> number" where
  "js_dec (Fin x) = round_double (x - 1)"
| "js_dec n = n"

subsection \<open>Answers, events and remote calls\<close>

text \<open>
  The answer of \<^verbatim>\<open>getList\<close>, and a live event of a subscription. \<^verbatim>\<open>totalItems\<close> is only
  stored, never compared or computed with; it is kept as an integer.
\<close>

datatype ListResult =
  ListResult (items: "RecordModel list") (res_totalPages: number) (res_totalItems: int)

datatype RecordSubscription =
  RecordSubscription (action: string) (sub_record: RecordModel)

text \<open>
  The calls an adapter issues to the PocketBase client, in the order it issues them. The
  query options (filter, sort, expand, fields) are passed through unchanged and are left
  out; \<^verbatim>\<open>getList\<close> keeps its page and page size. The settlement of a call (the value its
  promise resolves to, or the error it rejects with) is an argument \<open>Error + 'a\<close> of
  the function that models the code after the \<^verbatim>\<open>await\<close>.
\<close>

datatype remote_call =
    GetList number nat
  | GetOne string
  | Create RecordModel
  | Update "jsval option" RecordModel
  | Delete string
  | Subscribe string
  | Unsubscribe "string option"

section \<open>The synchronisation core (src/lib/utils/pb-state.svelte.ts)\<close>

text \<open>
  The fields of \<^verbatim>\<open>PocketBaseState\<close>. \<open>unsubscribe\<close> is the optional teardown closure,
  represented by the call it will issue; \<open>calls\<close> is the trace of remote calls.
\<close>

record 'd PocketBaseState =
  listen :: bool
  dataState :: "'d cell"
  loading :: bool
  error :: "Error option"
  unsubscribe :: "remote_call option"
  calls :: "remote_call list"

definition stop :: "('d, 'z) PocketBaseState_scheme \<Rightarrow> ('d, 'z) PocketBaseState_scheme" where
  "stop s =
     (case unsubscribe s of
        Some teardown \<Rightarrow> s\<lparr>calls := calls s @ [teardown], unsubscribe := None\<rparr>
      | None \<Rightarrow> s)"

section \<open>The collection adapter\<close>

text \<open>
  Two versions of \<^verbatim>\<open>CollectionState\<close> are in the repository. They share the fields, the
  constructor, \<^verbatim>\<open>fetch_data\<close> and the pagination methods. They differ in the live-event
  handler and in \<^verbatim>\<open>add\<close>/\<^verbatim>\<open>update\<close>/\<^verbatim>\<open>remove\<close>: src/unnamed/part_002 patches the
  snapshot in place (suffix \<open>_patch\<close>), src/lib/data/collection.svelte.ts fetches the
  page again (suffix \<open>_refetch\<close>). The page counter and \<^verbatim>\<open>totalPages\<close> are JavaScript
  numbers; the page size is a natural number here.
\<close>

record CollectionState = "(RecordModel list) PocketBaseState" +
  filterQuery :: "string option"
  pageSizeValue :: "nat option"
  page :: number
  totalPages :: number
  totalItems :: int

definition new_CollectionState :: "bool \<Rightarrow> string option \<Rightarrow> nat option \<Rightarrow> CollectionState" where
  "new_CollectionState l f ps =
     \<lparr>listen = l, dataState = Undefined, loading = False, error = None,
      unsubscribe = None, calls = [],
      filterQuery = f, pageSizeValue = ps, page = Fin 1, totalPages = Fin 1, totalItems = 0\<rparr>"

text \<open>\<^verbatim>\<open>this.pageSizeValue || 50\<close>\<close>

definition perPage :: "CollectionState \<Rightarrow> nat" where
  "perPage s = (case pageSizeValue s of Some n \<Rightarrow> (if n \<noteq> 0 then n else 50) | None \<Rightarrow> 50)"

text \<open>
  \<^verbatim>\<open>fetch_data\<close> up to its \<^verbatim>\<open>await\<close>, and from the settlement of \<^verbatim>\<open>getList\<close> on
  (the \<^verbatim>\<open>catch\<close> block does not rethrow, so the promise always resolves).
\<close>

definition col_fetch_begin :: "CollectionState \<Rightarrow> CollectionState" where
  "col_fetch_begin s =
     s\<lparr>loading := True, error := None, calls := calls s @ [GetList (page s) (perPage s)]\<rparr>"

definition col_fetch_settle :: "Error + ListResult \<Rightarrow> CollectionState \<Rightarrow> CollectionState" where
  "col_fetch_settle reply s =
     (case reply of
        Inr response \<Rightarrow>
          s\<lparr>dataState := Value (items response),
            totalPages := res_totalPages response,
            totalItems := res_totalItems response,
            loading := False\<rparr>
      | Inl err \<Rightarrow> s\<lparr>error := Some err, dataState := Value [], loading := False\<rparr>)"

definition col_fetch_data :: "Error + ListResult \<Rightarrow> CollectionState \<Rightarrow> CollectionState" where
  "col_fetch_data reply s = col_fetch_settle reply (col_fetch_begin s)"

text \<open>\<^verbatim>\<open>refetch\<close> of the core is \<^verbatim>\<open>fetch_data\<close>.\<close>

definition col_refetch :: "Error + ListResult \<Rightarrow> CollectionState \<Rightarrow> CollectionState" where
  "col_refetch reply s = col_fetch_data reply s"

subsection \<open>Pagination (the same in both versions)\<close>

definition nextPage :: "Error + ListResult \<Rightarrow> CollectionState \<Rightarrow> CollectionState" where
  "nextPage reply s =
     (if js_lt (page s) (totalPages s)
      then col_fetch_data reply (s\<lparr>page := js_inc (page s)\<rparr>) else s)"

definition prevPage :: "Error + ListResult \<Rightarrow> CollectionState \<Rightarrow> CollectionState" where
  "prevPage reply s =
     (if js_gt (page s) (Fin 1)
      then col_fetch_data reply (s\<lparr>page := js_dec (page s)\<rparr>) else s)"

definition goToPage :: "number \<Rightarrow> Error + ListResult \<Rightarrow> CollectionState \<Rightarrow> CollectionState" where
  "goToPage p reply s =
     (if js_ge p (Fin 1) \<and> js_le p (totalPages s)
      then col_fetch_data reply (s\<lparr>page := p\<rparr>) else s)"

subsection \<open>Live events\<close>

text \<open>The array read after \<^verbatim>\<open>if (!this.data) this.data = []\<close>.\<close>

fun items_of :: "'a list cell \<Rightarrow> 'a list" where
  "items_of (Value xs) = xs"
| "items_of _ = []"

text \<open>The subscription callback of src/unnamed/part_002.\<close>

definition on_event_patch :: "RecordSubscription \<Rightarrow> CollectionState \<Rightarrow> CollectionState" where
  "on_event_patch ev s =
     (let s1 = (if truthy (dataState s) then s else s\<lparr>dataState := Value []\<rparr>);
          xs = items_of (dataState s1)
      in if action ev = ''create'' then
           s1\<lparr>dataState := Value (xs @ [sub_record ev])\<rparr>
         else if action ev = ''update'' then
           s1\<lparr>dataState :=
                Value (map (\<lambda>item. if rec_id item = rec_id (sub_record ev)
                                    then sub_record ev else item) xs)\<rparr>
         else if action ev = ''delete'' then
           s1\<lparr>dataState :=
                Value (filter (\<lambda>item. rec_id item \<noteq> rec_id (sub_record ev)) xs)\<rparr>
         else s1)"

text \<open>
  The subscription callback of src/lib/data/collection.svelte.ts:
  \<^verbatim>\<open>async () => { await this.fetch_data(); }\<close>. It does not read the event.
\<close>

definition on_event_refetch ::
  "RecordSubscription \<Rightarrow> Error + ListResult \<Rightarrow> CollectionState \<Rightarrow> CollectionState" where
  "on_event_refetch ev reply s = col_fetch_data reply s"

subsection \<open>Opening the subscription\<close>

text \<open>\<^verbatim>\<open>this.filterQuery || '*'\<close> (part_002); the other version always uses \<^verbatim>\<open>'*'\<close>.\<close>

definition subscribe_topic :: "CollectionState \<Rightarrow> string" where
  "subscribe_topic s = (case nonempty (filterQuery s) of Some f \<Rightarrow> f | None \<Rightarrow> ''*'')"

text \<open>
  The callback given to \<^verbatim>\<open>this.fetch_data().then\<close>: subscribe and store the teardown
  closure; an error thrown by \<^verbatim>\<open>subscribe\<close> is stored instead.
\<close>

definition open_subscription :: "Error option \<Rightarrow> CollectionState \<Rightarrow> CollectionState" where
  "open_subscription thrown s =
     (case thrown of
        None \<Rightarrow>
          s\<lparr>calls := calls s @ [Subscribe (subscribe_topic s)],
            unsubscribe := Some (Unsubscribe None)\<rparr>
      | Some err \<Rightarrow>
          s\<lparr>calls := calls s @ [Subscribe (subscribe_topic s)], error := Some err\<rparr>)"

text \<open>
  \<^verbatim>\<open>subscribe_to_data\<close> and \<^verbatim>\<open>start\<close> when nothing else runs between the call and the
  settlement of the fetch.
\<close>

definition subscribe_to_data ::
  "Error + ListResult \<Rightarrow> Error option \<Rightarrow> CollectionState \<Rightarrow> CollectionState" where
  "subscribe_to_data reply thrown s =
     (case unsubscribe s of
        Some _ \<Rightarrow> s
      | None \<Rightarrow> open_subscription thrown (col_fetch_data reply s))"

definition start ::
  "Error + ListResult \<Rightarrow> Error option \<Rightarrow> CollectionState \<Rightarrow> CollectionState" where
  "start reply thrown s =
     (if listen s then subscribe_to_data reply thrown s else col_fetch_data reply s)"

text \<open>
  The same code on the event loop, where other calls run between the \<^verbatim>\<open>await\<close> of a
  fetch and its settlement. \<open>Start\<close> and \<open>Stop\<close> are the invocations of \<^verbatim>\<open>start\<close> and
  \<^verbatim>\<open>stop\<close> by the reactive cell (\<^verbatim>\<open>start\<close> from its \<^verbatim>\<open>await this.initPromise\<close> on; the
  promise is resolved, since \<^verbatim>\<open>init\<close> returns at once). Every call of \<^verbatim>\<open>fetch_data\<close> runs
  up to its \<^verbatim>\<open>await\<close> and leaves a continuation in the queue, \<open>True\<close> when the subscribing
  callback is chained to it with \<^verbatim>\<open>then\<close>. \<open>Settle\<close> delivers the reply of the oldest
  fetch in flight and runs its continuation (\<^verbatim>\<open>subscribe\<close> does not throw here).
\<close>

datatype event = Start | Stop | Settle "Error + ListResult"

type_synonym conf = "CollectionState \<times> bool list"

fun step :: "conf \<Rightarrow> event \<Rightarrow> conf" where
  "step (s, q) Start =
     (if listen s then
        (case unsubscribe s of
           Some _ \<Rightarrow> (s, q)
         | None \<Rightarrow> (col_fetch_begin s, q @ [True]))
      else (col_fetch_begin s, q @ [False]))"
| "step (s, q) Stop = (stop s, q)"
| "step (s, q) (Settle reply) =
     (case q of
        [] \<Rightarrow> (s, [])
      | then_subscribe # q' \<Rightarrow>
          (if then_subscribe then open_subscription None (col_fetch_settle reply s)
           else col_fetch_settle reply s, q'))"

definition run :: "conf \<Rightarrow> event list \<Rightarrow> conf" where
  "run c evs = foldl step c evs"

subsection \<open>add, update, remove\<close>

text \<open>\<^verbatim>\<open>{ ...item, ...rcd }\<close>\<close>

definition spread :: "RecordModel \<Rightarrow> RecordModel \<Rightarrow> RecordModel" where
  "spread item rcd = fold (\<lambda>kv. AList.update (fst kv) (snd kv)) rcd item"

text \<open>src/unnamed/part_002\<close>

definition add_patch ::
  "RecordModel \<Rightarrow> Error + RecordModel \<Rightarrow> CollectionState
     \<Rightarrow> (Error + RecordModel) \<times> CollectionState" where
  "add_patch data reply s =
     (let s1 = s\<lparr>loading := True, error := None, calls := calls s @ [Create data]\<rparr> in
      case reply of
        Inr rcd \<Rightarrow>
          (Inr rcd,
           (if \<not> listen s1 \<and> truthy (dataState s1)
            then s1\<lparr>dataState := Value (items_of (dataState s1) @ [rcd])\<rparr>
            else s1)\<lparr>loading := False\<rparr>)
      | Inl err \<Rightarrow> (Inl err, s1\<lparr>error := Some err, loading := False\<rparr>))"

definition update_patch ::
  "string \<Rightarrow> RecordModel \<Rightarrow> Error + RecordModel \<Rightarrow> CollectionState
     \<Rightarrow> (Error + RecordModel) \<times> CollectionState" where
  "update_patch i data reply s =
     (let s1 = s\<lparr>loading := True, error := None,
                 calls := calls s @ [Update (Some (Str i)) data]\<rparr> in
      case reply of
        Inr rcd \<Rightarrow>
          (Inr rcd,
           (if \<not> listen s1 \<and> truthy (dataState s1)
            then s1\<lparr>dataState :=
                      Value (map (\<lambda>item. if rec_id item = Some (Str i)
                                          then spread item rcd else item)
                               (items_of (dataState s1)))\<rparr>
            else s1)\<lparr>loading := False\<rparr>)
      | Inl err \<Rightarrow> (Inl err, s1\<lparr>error := Some err, loading := False\<rparr>))"

definition remove_patch ::
  "string \<Rightarrow> Error + unit \<Rightarrow> CollectionState \<Rightarrow> (Error + bool) \<times> CollectionState" where
  "remove_patch i reply s =
     (let s1 = s\<lparr>loading := True, error := None, calls := calls s @ [Delete i]\<rparr> in
      case reply of
        Inr _ \<Rightarrow>
          (Inr True,
           (if \<not> listen s1 \<and> truthy (dataState s1)
            then s1\<lparr>dataState :=
                      Value (filter (\<lambda>item. rec_id item \<noteq> Some (Str i))
                               (items_of (dataState s1)))\<rparr>
            else s1)\<lparr>loading := False\<rparr>)
      | Inl err \<Rightarrow> (Inl err, s1\<lparr>error := Some err, loading := False\<rparr>))"

text \<open>
  src/lib/data/collection.svelte.ts: after the mutation, a non-listening adapter awaits
  \<^verbatim>\<open>fetch_data\<close>, whose reply is the argument \<open>fetched\<close>.
\<close>

definition add_refetch ::
  "RecordModel \<Rightarrow> Error + RecordModel \<Rightarrow> Error + ListResult \<Rightarrow> CollectionState
     \<Rightarrow> (Error + RecordModel) \<times> CollectionState" where
  "add_refetch data reply fetched s =
     (let s1 = s\<lparr>loading := True, error := None, calls := calls s @ [Create data]\<rparr> in
      case reply of
        Inr rcd \<Rightarrow>
          (Inr rcd, (if \<not> listen s1 then col_fetch_data fetched s1 else s1)\<lparr>loading := False\<rparr>)
      | Inl err \<Rightarrow> (Inl err, s1\<lparr>error := Some err, loading := False\<rparr>))"

definition update_refetch ::
  "string \<Rightarrow> RecordModel \<Rightarrow> Error + RecordModel \<Rightarrow> Error + ListResult \<Rightarrow> CollectionState
     \<Rightarrow> (Error + RecordModel) \<times> CollectionState" where
  "update_refetch i data reply fetched s =
     (let s1 = s\<lparr>loading := True, error := None,
                 calls := calls s @ [Update (Some (Str i)) data]\<rparr> in
      case reply of
        Inr rcd \<Rightarrow>
          (Inr rcd, (if \<not> listen s1 then col_fetch_data fetched s1 else s1)\<lparr>loading := False\<rparr>)
      | Inl err \<Rightarrow> (Inl err, s1\<lparr>error := Some err, loading := False\<rparr>))"

definition remove_refetch ::
  "string \<Rightarrow> Error + unit \<Rightarrow> Error + ListResult \<Rightarrow> CollectionState
     \<Rightarrow> (Error + bool) \<times> CollectionState" where
  "remove_refetch i reply fetched s =
     (let s1 = s\<lparr>loading := True, error := None, calls := calls s @ [Delete i]\<rparr> in
      case reply of
        Inr _ \<Rightarrow>
          (Inr True, (if \<not> listen s1 then col_fetch_data fetched s1 else s1)\<lparr>loading := False\<rparr>)
      | Inl err \<Rightarrow> (Inl err, s1\<lparr>error := Some err, loading := False\<rparr>))"

section \<open>The document adapter (RecordState)\<close>

record RecordState = "RecordModel PocketBaseState" +
  recordId :: "string option"
  recordFilterQuery :: "string option"
  autosaveEnabled :: bool

definition new_RecordState ::
  "bool \<Rightarrow> bool \<Rightarrow> string option \<Rightarrow> string option \<Rightarrow> RecordState" where
  "new_RecordState l a i f =
     \<lparr>listen = l, dataState = Undefined, loading = False, error = None,
      unsubscribe = None, calls = [],
      recordId = i, recordFilterQuery = f, autosaveEnabled = a\<rparr>"

text \<open>
  \<^verbatim>\<open>const { id: _, created, updated, collectionId, collectionName, ...updateData } = this.data\<close>
\<close>

definition reserved :: "string list" where
  "reserved = [''id'', ''created'', ''updated'', ''collectionId'', ''collectionName'']"

definition updateData :: "RecordModel \<Rightarrow> RecordModel" where
  "updateData d = filter (\<lambda>kv. fst kv \<notin> set reserved) d"

text \<open>
  \<^verbatim>\<open>save\<close> up to its \<^verbatim>\<open>await\<close>: \<open>None\<close> when it returned \<^verbatim>\<open>null\<close> at the guard, else the
  state in which the \<^verbatim>\<open>update\<close> call is in flight.
\<close>

definition save_begin :: "RecordState \<Rightarrow> RecordState option" where
  "save_begin s =
     (case dataState s of
        Value d \<Rightarrow>
          Some (s\<lparr>loading := True, error := None,
                  calls := calls s @ [Update (rec_id d) (updateData d)]\<rparr>)
      | _ \<Rightarrow> None)"

text \<open>
  The setter of \<^verbatim>\<open>data\<close>, which every assignment \<^verbatim>\<open>this.data = ...\<close> of the class goes
  through. With autosave it calls \<^verbatim>\<open>this.save()\<close>, which runs up to its \<^verbatim>\<open>await\<close>; the
  promise is left to settle later (\<open>autosave_settle\<close>).
\<close>

definition set_data :: "RecordModel cell \<Rightarrow> RecordState \<Rightarrow> RecordState" where
  "set_data v s =
     (let s1 = s\<lparr>dataState := v\<rparr> in
      if autosaveEnabled s1 \<and> truthy v then
        (case save_begin s1 of Some s2 \<Rightarrow> s2 | None \<Rightarrow> s1)
      else s1)"

text \<open>\<^verbatim>\<open>save\<close> from the settlement of \<^verbatim>\<open>update\<close> on: \<open>Inl\<close> is the rethrown error.\<close>

definition save_settle ::
  "Error + RecordModel \<Rightarrow> RecordState \<Rightarrow> (Error + RecordModel option) \<times> RecordState" where
  "save_settle reply s =
     (case reply of
        Inr rcd \<Rightarrow>
          (Inr (Some rcd),
           (if \<not> listen s then set_data (Value rcd) s else s)\<lparr>loading := False\<rparr>)
      | Inl err \<Rightarrow> (Inl err, s\<lparr>error := Some err, loading := False\<rparr>))"

definition save ::
  "Error + RecordModel \<Rightarrow> RecordState \<Rightarrow> (Error + RecordModel option) \<times> RecordState" where
  "save reply s =
     (case save_begin s of
        None \<Rightarrow> (Inr None, s)
      | Some s1 \<Rightarrow> save_settle reply s1)"

text \<open>
  The settlement of a save that the setter started:
  \<^verbatim>\<open>this.save().catch((err) => { console.error(...) })\<close> drops the result.
\<close>

definition autosave_settle :: "Error + RecordModel \<Rightarrow> RecordState \<Rightarrow> RecordState" where
  "autosave_settle reply s = snd (save_settle reply s)"

fun cell_value :: "'a cell \<Rightarrow> 'a option" where
  "cell_value (Value x) = Some x"
| "cell_value _ = None"

definition updateField ::
  "string \<Rightarrow> jsval \<Rightarrow> Error + RecordModel \<Rightarrow> RecordState
     \<Rightarrow> (Error + RecordModel option) \<times> RecordState" where
  "updateField field v reply s =
     (case dataState s of
        Value d \<Rightarrow>
          (let s1 = set_data (Value (AList.update field v d)) s in
           if \<not> autosaveEnabled s1 then save reply s1
           else (Inr (cell_value (dataState s1)), s1))
      | _ \<Rightarrow> (Inr None, s))"

text \<open>
  \<^verbatim>\<open>fetch_data\<close> of the document adapter. \<open>one\<close> settles \<^verbatim>\<open>getOne\<close> and \<open>lst\<close> settles
  \<^verbatim>\<open>getList(1, 1, ...)\<close>; only the call that is made reads its reply.
\<close>

definition rec_fetch_data ::
  "Error + RecordModel \<Rightarrow> Error + ListResult \<Rightarrow> RecordState \<Rightarrow> RecordState" where
  "rec_fetch_data one lst s =
     (let s1 = s\<lparr>loading := True, error := None\<rparr> in
      (case nonempty (recordId s1) of
         Some i \<Rightarrow>
           (let s2 = s1\<lparr>calls := calls s1 @ [GetOne i]\<rparr> in
            case one of
              Inr rcd \<Rightarrow> set_data (Value rcd) s2
            | Inl err \<Rightarrow> set_data Null (s2\<lparr>error := Some err\<rparr>))
       | None \<Rightarrow>
           (case nonempty (recordFilterQuery s1) of
              Some f \<Rightarrow>
                (let s2 = s1\<lparr>calls := calls s1 @ [GetList (Fin 1) 1]\<rparr> in
                 case lst of
                   Inr response \<Rightarrow>
                     (case items response of
                        [] \<Rightarrow> set_data Null s2
                      | rcd # _ \<Rightarrow> set_data (Value rcd) s2)
                 | Inl err \<Rightarrow> set_data Null (s2\<lparr>error := Some err\<rparr>))
            | None \<Rightarrow> set_data Null s1))\<lparr>loading := False\<rparr>)"

section \<open>The auth adapter (CurrentUserState)\<close>

text \<open>
  The class has two fields, the identity cell and a loading flag; it has no error field.
  The identity cell is written by the \<^verbatim>\<open>onChange\<close> listener only, not by \<^verbatim>\<open>login\<close>.
\<close>

record CurrentUserState =
  userState :: "RecordModel cell"
  auth_loading :: bool

definition login ::
  "string \<Rightarrow> string \<Rightarrow> Error + unit \<Rightarrow> CurrentUserState
     \<Rightarrow> (Error + unit) \<times> CurrentUserState" where
  "login email password reply s =
     (let s1 = s\<lparr>auth_loading := True\<rparr> in
      case reply of
        Inr _ \<Rightarrow> (Inr (), s1\<lparr>auth_loading := False\<rparr>)
      | Inl err \<Rightarrow> (Inl err, s1\<lparr>auth_loading := False\<rparr>))"

section \<open>Subscriptions and listen mode\<close>

text \<open>
  The invariant of the event loop: \<^verbatim>\<open>listen\<close> is read-only, and a teardown closure or a
  chained subscribing callback exists in listen mode only.
\<close>

definition listen_inv :: "bool \<Rightarrow> conf \<Rightarrow> bool" where
  "listen_inv l c =
     (listen (fst c) = l \<and> (unsubscribe (fst c) = None \<or> l) \<and> (True \<notin> set (snd c) \<or> l))"

section \<open>Example states\<close>

definition ex_a :: RecordModel where
  "ex_a = [(''id'', Str ''a''), (''title'', Str ''A'')]"

definition ex_b :: RecordModel where
  "ex_b = [(''id'', Str ''b''), (''title'', Str ''B'')]"

definition ex_a2 :: RecordModel where
  "ex_a2 = [(''id'', Str ''a''), (''title'', Str ''A2'')]"

definition ex_aB :: RecordModel where
  "ex_aB = [(''id'', Str ''a''), (''title'', Str ''B'')]"

definition ex_new :: RecordModel where
  "ex_new = [(''title'', Str ''B'')]"

definition ex_full :: RecordModel where
  "ex_full = [(''id'', Str ''r1''), (''name'', Str ''A''), (''created'', Str ''t0''),
              (''updated'', Str ''t0'')]"

definition ex_full2 :: RecordModel where
  "ex_full2 = [(''id'', Str ''r1''), (''name'', Str ''A''), (''created'', Str ''t0''),
               (''updated'', Str ''t1'')]"

definition ex_reply :: "Error + ListResult" where
  "ex_reply = Inr (ListResult [ex_a, ex_b] (Fin 1) 2)"

text \<open>A listening collection adapter after \<^verbatim>\<open>start\<close> and its first fetch.\<close>

definition ex_listening :: CollectionState where
  "ex_listening = start ex_reply None (new_CollectionState True None None)"

text \<open>A non-listening collection adapter after its first fetch.\<close>

definition ex_idle :: CollectionState where
  "ex_idle = col_fetch_data (Inr (ListResult [ex_a] (Fin 1) 1)) (new_CollectionState False None None)"

text \<open>A non-listening collection adapter with page size 2, on page 1 of 3.\<close>

definition ex_paged :: CollectionState where
  "ex_paged =
     col_fetch_data (Inr (ListResult [ex_a, ex_b] (Fin 3) 5))
       (new_CollectionState False None (Some 2))"

text \<open>
  A non-listening collection adapter with page size 2: five items are fetched, the
  adapter goes to page 3 of 3, the collection shrinks to one item on the server, and
  \<^verbatim>\<open>refetch\<close> reads the new totals.
\<close>

definition ex_shrunk :: CollectionState where
  "ex_shrunk =
     col_refetch (Inr (ListResult [] (Fin 1) 1))
       (goToPage (Fin 3) (Inr (ListResult [ex_b] (Fin 3) 5))
          (col_fetch_data (Inr (ListResult [ex_a, ex_b] (Fin 3) 5))
             (new_CollectionState False None (Some 2))))"

text \<open>Document adapters after a first fetch: by id, by filter, in listen mode without
  an open subscription (fetched with \<^verbatim>\<open>refetch\<close>), and with the record of the
  specification's example.\<close>

definition ex_doc :: RecordState where
  "ex_doc = rec_fetch_data (Inr ex_a) (Inl ''unused'')
              (new_RecordState False False (Some ''a'') None)"

definition ex_doc_by_filter :: RecordState where
  "ex_doc_by_filter = rec_fetch_data (Inl ''unused'') (Inr (ListResult [ex_a] (Fin 1) 1))
              (new_RecordState False False None (Some ''title = A''))"

definition ex_doc_listen :: RecordState where
  "ex_doc_listen = rec_fetch_data (Inr ex_a) (Inl ''unused'')
              (new_RecordState True False (Some ''a'') None)"

definition ex_doc_r1 :: RecordState where
  "ex_doc_r1 = rec_fetch_data (Inr ex_full) (Inl ''unused'')
              (new_RecordState False False (Some ''r1'') None)"

text \<open>
  A non-listening document adapter with autosave: the first fetch assigned the record,
  and the save that this assignment started was rejected.
\<close>

definition ex_autosave :: RecordState where
  "ex_autosave = autosave_settle (Inl ''offline'')
     (rec_fetch_data (Inr ex_a) (Inl ''unused'') (new_RecordState False True (Some ''a'') None))"

definition ex_anonymous :: CurrentUserState where
  "ex_anonymous = \<lparr>userState = Null, auth_loading = False\<rparr>"

lemmas ex_records =
  rec_id_def ex_a_def ex_b_def ex_a2_def ex_aB_def ex_new_def ex_full_def ex_full2_def
  ex_reply_def

lemmas ex_collection_simps =
  ex_listening_def ex_idle_def ex_paged_def ex_shrunk_def start_def subscribe_to_data_def
  open_subscription_def col_refetch_def col_fetch_data_def col_fetch_settle_def
  col_fetch_begin_def new_CollectionState_def perPage_def subscribe_topic_def

lemmas ex_document_simps =
  ex_doc_def ex_doc_by_filter_def ex_doc_listen_def ex_doc_r1_def ex_autosave_def
  rec_fetch_data_def new_RecordState_def set_data_def save_begin_def save_def
  save_settle_def autosave_settle_def updateField_def updateData_def reserved_def

section \<open>Basic facts about numbers\<close>

lemma round_half_even_of_int: "round_half_even (of_int j) = j"
  by (simp add: round_half_even_def)

text \<open>The binary exponent of a number from 1 on.\<close>

lemma ilog2_ge1:
  assumes "1 \<le> x"
  shows "2 powi (ilog2 x) \<le> x" and "x < 2 powi (ilog2 x + 1)"
proof -
  define n where "n = nat \<lfloor>x\<rfloor>"
  define k where "k = floorlog 2 n"
  have fx: "1 \<le> \<lfloor>x\<rfloor>" using assms by simp
  then have pos: "0 < n" by (simp add: n_def)
  have nx: "int n = \<lfloor>x\<rfloor>" using fx by (simp add: n_def)
  have b: "2 ^ (k - 1) \<le> n" "n < 2 ^ k"
    using floorlog_bounds [where b=2 and x=n] pos by (simp_all add: k_def)
  have k0: "0 < k" using b(2) pos by (cases k) simp_all
  have il: "ilog2 x = int k - 1"
    using assms by (simp add: ilog2_def k_def n_def)
  have "int (2 ^ (k - 1)) \<le> int n" using b(1) by (simp only: of_nat_le_iff)
  then have "2 ^ (k - 1) \<le> \<lfloor>x\<rfloor>" by (simp add: nx)
  then have "(of_int (2 ^ (k - 1)) :: real) \<le> of_int \<lfloor>x\<rfloor>" by (simp only: of_int_le_iff)
  also have "\<dots> \<le> x" by simp
  finally have lo: "(2::real) ^ (k - 1) \<le> x" by simp
  have "int n < int (2 ^ k)" using b(2) by (simp only: of_nat_less_iff)
  then have "\<lfloor>x\<rfloor> + 1 \<le> 2 ^ k" by (simp add: nx)
  then have le: "(of_int (\<lfloor>x\<rfloor> + 1) :: real) \<le> of_int (2 ^ k)"
    by (simp only: of_int_le_iff)
  have "x < of_int (\<lfloor>x\<rfloor> + 1)" by linarith
  then have "x < real_of_int (2 ^ k)" using le by (rule less_le_trans)
  then have hi: "x < (2::real) ^ k" by simp
  have e1: "int k - 1 = int (k - 1)" using k0 by simp
  show "2 powi (ilog2 x) \<le> x" unfolding il e1 power_int_of_nat using lo .
  have e2: "int k - 1 + 1 = int k" by simp
  show "x < 2 powi (ilog2 x + 1)" unfolding il e2 power_int_of_nat using hi .
qed

text \<open>The binary exponent of a positive number below 1, and of every positive number.\<close>

lemma ilog2_lt1:
  assumes "0 < x" "x < 1"
  shows "2 powi (ilog2 x) \<le> x" and "x < 2 powi (ilog2 x + 1)"
proof -
  define y where "y = 1 / x"
  define n where "n = nat (\<lceil>y\<rceil> - 1)"
  define k where "k = floorlog 2 n"
  have y1: "1 < y" using assms by (simp add: y_def)
  then have c2: "2 \<le> \<lceil>y\<rceil>" by linarith
  then have pos: "0 < n" by (simp add: n_def)
  have nc: "int n = \<lceil>y\<rceil> - 1" using c2 by (simp add: n_def)
  have b: "2 ^ (k - 1) \<le> n" "n < 2 ^ k"
    using floorlog_bounds [where b=2 and x=n] pos by (simp_all add: k_def)
  have k0: "0 < k" using b(2) pos by (cases k) simp_all
  have il: "ilog2 x = - int k"
    using assms by (simp add: ilog2_def k_def n_def y_def)
  have "int n < int (2 ^ k)" using b(2) by (simp only: of_nat_less_iff)
  then have "\<lceil>y\<rceil> \<le> 2 ^ k" by (simp add: nc)
  then have "real_of_int \<lceil>y\<rceil> \<le> real_of_int (2 ^ k)" by (simp only: of_int_le_iff)
  moreover have "y \<le> real_of_int \<lceil>y\<rceil>" by linarith
  ultimately have "y \<le> real_of_int (2 ^ k)" by (rule order_trans [rotated])
  then have yk: "y \<le> 2 ^ k" by simp
  have "int (2 ^ (k - 1)) \<le> int n" using b(1) by (simp only: of_nat_le_iff)
  then have "2 ^ (k - 1) \<le> \<lceil>y\<rceil> - 1" by (simp add: nc)
  then have "real_of_int (2 ^ (k - 1)) \<le> real_of_int (\<lceil>y\<rceil> - 1)" by (simp only: of_int_le_iff)
  moreover have "real_of_int (\<lceil>y\<rceil> - 1) < y" by linarith
  ultimately have "real_of_int (2 ^ (k - 1)) < y" by (rule le_less_trans)
  then have ky: "2 ^ (k - 1) < y" by simp
  have xy: "x = 1 / y" using assms by (simp add: y_def)
  have p1: "(2::real) powi (- int k) = 1 / 2 ^ k"
    by (simp add: power_int_minus divide_inverse)
  have e: "- int k + 1 = - int (k - 1)" using k0 by simp
  have p2: "(2::real) powi (- int k + 1) = 1 / 2 ^ (k - 1)"
    unfolding e by (simp add: power_int_minus divide_inverse)
  have q1: "2 powi (ilog2 x) = 1 / (2::real) ^ k" unfolding il by (rule p1)
  have q2: "2 powi (ilog2 x + 1) = 1 / (2::real) ^ (k - 1)" unfolding il by (rule p2)
  have "1 / (2::real) ^ k \<le> 1 / y" using yk y1 by (simp add: field_simps)
  then show "2 powi (ilog2 x) \<le> x" unfolding q1 using xy by simp
  have "1 / y < 1 / (2::real) ^ (k - 1)" using ky y1 by (simp add: field_simps)
  then show "x < 2 powi (ilog2 x + 1)" unfolding q2 using xy by simp
qed

lemma ilog2_bounds:
  assumes "0 < x"
  shows "2 powi (ilog2 x) \<le> x \<and> x < 2 powi (ilog2 x + 1)"
  using assms ilog2_ge1 [of x] ilog2_lt1 [of x] by (cases "1 \<le> x") simp_all

lemma ilog2_small:
  assumes "1 \<le> x" "x < 2 ^ 53"
  shows "ilog2 x < 53"
proof (rule ccontr)
  assume "\<not> ilog2 x < 53"
  then have "(2::real) powi 53 \<le> 2 powi (ilog2 x)"
    by (intro power_int_increasing) simp_all
  also have "\<dots> \<le> x" using assms(1) by (rule ilog2_ge1)
  finally have "(2::real) powi 53 \<le> x" .
  then have "(2::real) ^ 53 \<le> x" by (simp only: power_int_numeral)
  with assms(2) show False by simp
qed

text \<open>Every whole number of magnitude below \<open>2 ^ 53\<close> is a double.\<close>

lemma round_double_of_int:
  assumes "\<bar>n\<bar> < 2 ^ 53"
  shows "round_double (of_int n) = Fin (of_int n)"
proof (cases "n = 0")
  case True
  then show ?thesis by (simp add: round_double_def)
next
  case False
  define x :: real where "x = \<bar>of_int n\<bar>"
  define e where "e = max (- 1074) (ilog2 x - 52)"
  have xe: "x = of_int \<bar>n\<bar>" by (simp add: x_def)
  have "1 \<le> \<bar>n\<bar>" using False by simp
  then have x1: "1 \<le> x" unfolding xe by (simp only: of_int_1_le_iff)
  have "(of_int \<bar>n\<bar> :: real) < of_int (2 ^ 53)" using assms by (simp only: of_int_less_iff)
  then have x53: "x < 2 ^ 53" by (simp add: xe)
  have "ilog2 x < 53" using x1 x53 by (rule ilog2_small)
  then have e0: "e \<le> 0" by (simp add: e_def)
  define j where "j = nat (- e)"
  have ej: "e = - int j" using e0 by (simp add: j_def)
  have pe: "(2::real) powi e = inverse (2 ^ j)"
    unfolding ej power_int_minus power_int_of_nat ..
  have q: "x / 2 powi e = of_int (\<bar>n\<bar> * 2 ^ j)"
    unfolding pe xe by (simp add: divide_inverse)
  have y: "of_int (round_half_even (x / 2 powi e)) * 2 powi e = x"
    unfolding q round_half_even_of_int unfolding pe xe by simp
  have "x < 2 ^ 1024"
    using x53 by (rule less_trans) simp
  then have small: "\<not> 2 powi 1024 \<le> x" by (simp only: power_int_numeral not_le)
  have sg: "sgn (of_int n :: real) * x = of_int n"
    by (simp add: x_def mult_sgn_abs)
  have nz: "(of_int n :: real) \<noteq> 0" using False by simp
  show ?thesis
    unfolding round_double_def Let_def x_def [symmetric] e_def [symmetric] y
    using nz small sg by simp
qed

text \<open>On whole numbers below \<open>2 ^ 53\<close>, \<^verbatim>\<open>++\<close> and \<^verbatim>\<open>--\<close> add and subtract one.\<close>

lemma js_inc_whole:
  assumes "0 \<le> n" "n + 1 < 2 ^ 53"
  shows "js_inc (Fin (of_int n)) = Fin (of_int (n + 1))"
proof -
  have "\<bar>n + 1\<bar> < 2 ^ 53" using assms by simp
  then have "round_double (of_int (n + 1)) = Fin (of_int (n + 1))"
    by (rule round_double_of_int)
  then show ?thesis by simp
qed

lemma js_dec_whole:
  assumes "1 \<le> n" "n < 2 ^ 53"
  shows "js_dec (Fin (of_int n)) = Fin (of_int (n - 1))"
proof -
  have "\<bar>n - 1\<bar> < 2 ^ 53" using assms by simp
  then have "round_double (of_int (n - 1)) = Fin (of_int (n - 1))"
    by (rule round_double_of_int)
  then show ?thesis by simp
qed

text \<open>
  Beyond that, they need not: at \<open>2 ^ 53\<close> the counter stays where it is, and a
  fractional counter stays fractional.
\<close>

lemmas round_eval =
  round_double_def ilog2_def round_half_even_def Let_def compute_floorlog

lemma js_inc_examples:
  "js_inc (Fin (2 ^ 53)) = Fin (2 ^ 53)"
  "js_inc (Fin (3 / 2)) = Fin (5 / 2)"
  "js_dec (Fin (3 / 2)) = Fin (1 / 2)"
  "js_inc NaN = NaN"
  by (simp_all add: round_eval)

section \<open>Basic facts about the collection adapter\<close>

lemma col_fetch_data_calls:
  "calls (col_fetch_data reply s) = calls s @ [GetList (page s) (perPage s)]"
  by (cases reply) (simp_all add: col_fetch_data_def col_fetch_settle_def col_fetch_begin_def)

lemma col_fetch_data_page: "page (col_fetch_data reply s) = page s"
  by (cases reply) (simp_all add: col_fetch_data_def col_fetch_settle_def col_fetch_begin_def)

lemma col_fetch_data_ok:
  "dataState (col_fetch_data (Inr response) s) = Value (items response)"
  by (simp add: col_fetch_data_def col_fetch_settle_def col_fetch_begin_def)

lemma col_fetch_fail:
  "col_fetch_data (Inl err) s =
     s\<lparr>dataState := Value [], loading := False, error := Some err,
       calls := calls s @ [GetList (page s) (perPage s)]\<rparr>"
  by (simp add: col_fetch_data_def col_fetch_settle_def col_fetch_begin_def)

lemma perPage_page_update: "perPage (s\<lparr>page := p\<rparr>) = perPage s"
  by (simp add: perPage_def)

subsection \<open>Pagination\<close>

lemma goToPage_rejected:
  "\<not> (js_ge p (Fin 1) \<and> js_le p (totalPages s)) \<Longrightarrow> goToPage p reply s = s"
  by (auto simp: goToPage_def)

lemma nextPage_rejected: "\<not> js_lt (page s) (totalPages s) \<Longrightarrow> nextPage reply s = s"
  by (simp add: nextPage_def)

lemma prevPage_rejected: "\<not> js_gt (page s) (Fin 1) \<Longrightarrow> prevPage reply s = s"
  by (simp add: prevPage_def)

lemma goToPage_accepted:
  assumes "js_ge p (Fin 1) \<and> js_le p (totalPages s)"
  shows "goToPage p reply s = col_fetch_data reply (s\<lparr>page := p\<rparr>)"
    and "page (goToPage p reply s) = p"
    and "calls (goToPage p reply s) = calls s @ [GetList p (perPage s)]"
  using assms
  by (simp_all add: goToPage_def col_fetch_data_page col_fetch_data_calls perPage_page_update)

lemma nextPage_accepted:
  assumes "js_lt (page s) (totalPages s)"
  shows "nextPage reply s = col_fetch_data reply (s\<lparr>page := js_inc (page s)\<rparr>)"
    and "page (nextPage reply s) = js_inc (page s)"
    and "calls (nextPage reply s) = calls s @ [GetList (js_inc (page s)) (perPage s)]"
  using assms
  by (simp_all add: nextPage_def col_fetch_data_page col_fetch_data_calls perPage_page_update)

lemma prevPage_accepted:
  assumes "js_gt (page s) (Fin 1)"
  shows "prevPage reply s = col_fetch_data reply (s\<lparr>page := js_dec (page s)\<rparr>)"
    and "page (prevPage reply s) = js_dec (page s)"
    and "calls (prevPage reply s) = calls s @ [GetList (js_dec (page s)) (perPage s)]"
  using assms
  by (simp_all add: prevPage_def col_fetch_data_page col_fetch_data_calls perPage_page_update)

lemma col_fetch_data_totalPages:
  "totalPages (col_fetch_data (Inr response) s) = res_totalPages response"
  "totalPages (col_fetch_data (Inl err) s) = totalPages s"
  by (simp_all add: col_fetch_data_def col_fetch_settle_def col_fetch_begin_def)

lemma whole_pages:
  assumes "page s = Fin (of_int n)" "totalPages s = Fin (of_int t)"
    and "1 \<le> n" "n \<le> t" "t < 2 ^ 53"
  shows "page (nextPage reply s) = Fin (of_int (if n < t then n + 1 else n))"
    and "page (prevPage reply s) = Fin (of_int (if 1 < n then n - 1 else n))"
    and "page (goToPage (Fin (of_int m)) reply s)
           = Fin (of_int (if 1 \<le> m \<and> m \<le> t then m else n))"
proof -
  show "page (nextPage reply s) = Fin (of_int (if n < t then n + 1 else n))"
  proof (cases "n < t")
    case True
    then have "js_inc (Fin (of_int n)) = Fin (of_int (n + 1))"
      using assms by (intro js_inc_whole) simp_all
    then show ?thesis
      using True assms(1,2) by (simp add: nextPage_def col_fetch_data_page)
  next
    case False
    then show ?thesis using assms(1,2) by (simp add: nextPage_def)
  qed
  show "page (prevPage reply s) = Fin (of_int (if 1 < n then n - 1 else n))"
  proof (cases "1 < n")
    case True
    then have "js_dec (Fin (of_int n)) = Fin (of_int (n - 1))"
      using assms by (intro js_dec_whole) simp_all
    then show ?thesis
      using True assms(1,2) by (simp add: prevPage_def js_gt_def col_fetch_data_page)
  next
    case False
    then show ?thesis using assms(1,2) by (simp add: prevPage_def js_gt_def)
  qed
  show "page (goToPage (Fin (of_int m)) reply s)
           = Fin (of_int (if 1 \<le> m \<and> m \<le> t then m else n))"
    using assms(1,2)
    by (auto simp: goToPage_def js_ge_def js_le_def col_fetch_data_page)
qed


lemma whole_pages_in_range:
  assumes "page s = Fin (of_int n)" "totalPages s = Fin (of_int t)"
    and "1 \<le> n" "n \<le> t" "t < 2 ^ 53"
  shows "js_ge (page (nextPage reply s)) (Fin 1) \<and> js_le (page (nextPage reply s)) (totalPages s)"
    and "js_ge (page (prevPage reply s)) (Fin 1) \<and> js_le (page (prevPage reply s)) (totalPages s)"
    and "js_ge (page (goToPage p reply s)) (Fin 1) \<and> js_le (page (goToPage p reply s)) (totalPages s)"
proof -
  show "js_ge (page (nextPage reply s)) (Fin 1) \<and> js_le (page (nextPage reply s)) (totalPages s)"
    unfolding whole_pages(1) [OF assms] using assms by (auto simp: js_ge_def js_le_def)
  show "js_ge (page (prevPage reply s)) (Fin 1) \<and> js_le (page (prevPage reply s)) (totalPages s)"
    unfolding whole_pages(2) [OF assms] using assms by (auto simp: js_ge_def js_le_def)
  show "js_ge (page (goToPage p reply s)) (Fin 1) \<and> js_le (page (goToPage p reply s)) (totalPages s)"
  proof (cases "js_ge p (Fin 1) \<and> js_le p (totalPages s)")
    case True
    then show ?thesis by (simp add: goToPage_accepted(2))
  next
    case False
    then have "goToPage p reply s = s" by (rule goToPage_rejected)
    then show ?thesis using assms by (auto simp: js_ge_def js_le_def)
  qed
qed

lemmas nav_eval =
  goToPage_def nextPage_def prevPage_def js_gt_def js_ge_def js_le_def round_eval

text \<open>
  The page is not clamped in general: the fetch of an accepted move may answer a smaller
  \<^verbatim>\<open>totalPages\<close>, \<^verbatim>\<open>goToPage\<close> accepts a fractional page, from which \<^verbatim>\<open>nextPage\<close>
  steps past \<^verbatim>\<open>totalPages\<close>, and \<^verbatim>\<open>goToPage(NaN)\<close> is a no-op.
\<close>

lemma navigation_not_clamped:
  "page (nextPage (Inr (ListResult [] (Fin 1) 1)) ex_paged) = Fin 2"
  "totalPages (nextPage (Inr (ListResult [] (Fin 1) 1)) ex_paged) = Fin 1"
  "page (goToPage (Fin (5 / 2)) ex_reply ex_paged) = Fin (5 / 2)"
  "page (nextPage (Inr (ListResult [] (Fin 3) 5))
          (goToPage (Fin (5 / 2)) (Inr (ListResult [] (Fin 3) 5)) ex_paged))
     = Fin (7 / 2)"
  "goToPage NaN ex_reply ex_paged = ex_paged"
  by (simp_all add: nav_eval ex_collection_simps ex_records)

lemma on_event_patch_data:
  "dataState (on_event_patch ev s) =
     Value (if action ev = ''create'' then items_of (dataState s) @ [sub_record ev]
            else if action ev = ''update'' then
              map (\<lambda>item. if rec_id item = rec_id (sub_record ev) then sub_record ev else item)
                (items_of (dataState s))
            else if action ev = ''delete'' then
              filter (\<lambda>item. rec_id item \<noteq> rec_id (sub_record ev)) (items_of (dataState s))
            else items_of (dataState s))"
  by (cases "dataState s") (simp_all add: on_event_patch_def Let_def)

lemma on_event_patch_rest:
  "calls (on_event_patch ev s) = calls s"
  "page (on_event_patch ev s) = page s"
  "totalPages (on_event_patch ev s) = totalPages s"
  "totalItems (on_event_patch ev s) = totalItems s"
  "loading (on_event_patch ev s) = loading s"
  "error (on_event_patch ev s) = error s"
  "unsubscribe (on_event_patch ev s) = unsubscribe s"
  by (simp_all add: on_event_patch_def Let_def)

lemma map_replace_unmatched:
  "i \<notin> rec_id ` set xs \<Longrightarrow> map (\<lambda>item. if rec_id item = i then r else item) xs = xs"
  by (induction xs) auto

lemma filter_unmatched:
  "i \<notin> rec_id ` set xs \<Longrightarrow> filter (\<lambda>item. rec_id item \<noteq> i) xs = xs"
  by (induction xs) auto

lemma map_replace_ids:
  "map rec_id (map (\<lambda>item. if rec_id item = rec_id r then r else item) xs) = map rec_id xs"
  by (induction xs) auto

lemmas mutation_defs =
  add_patch_def update_patch_def remove_patch_def
  add_refetch_def update_refetch_def remove_refetch_def

lemma patch_failure:
  "fst (add_patch data (Inl err) s) = Inl err"
  "error (snd (add_patch data (Inl err) s)) = Some err"
  "fst (update_patch i data (Inl err) s) = Inl err"
  "error (snd (update_patch i data (Inl err) s)) = Some err"
  "fst (remove_patch i (Inl err) s) = Inl err"
  "error (snd (remove_patch i (Inl err) s)) = Some err"
  by (simp_all add: mutation_defs)

lemma refetch_failure:
  "fst (add_refetch data (Inl err) fetched s) = Inl err"
  "error (snd (add_refetch data (Inl err) fetched s)) = Some err"
  "fst (update_refetch i data (Inl err) fetched s) = Inl err"
  "error (snd (update_refetch i data (Inl err) fetched s)) = Some err"
  "fst (remove_refetch i (Inl err) fetched s) = Inl err"
  "error (snd (remove_refetch i (Inl err) fetched s)) = Some err"
  by (simp_all add: mutation_defs)

lemma add_refetch_fetch_failure:
  "\<not> listen s \<Longrightarrow> fst (add_refetch data (Inr rcd) (Inl err) s) = Inr rcd"
  "\<not> listen s \<Longrightarrow> error (snd (add_refetch data (Inr rcd) (Inl err) s)) = Some err"
  by (simp_all add: add_refetch_def col_fetch_fail)

lemma add_patch_appends:
  "\<not> listen s \<Longrightarrow> dataState s = Value xs \<Longrightarrow>
     add_patch data (Inr rcd) s =
       (Inr rcd, s\<lparr>dataState := Value (xs @ [rcd]), loading := False, error := None,
                  calls := calls s @ [Create data]\<rparr>)"
  by (simp add: add_patch_def)

lemma add_patch_listen:
  "listen s \<Longrightarrow> dataState (snd (add_patch data reply s)) = dataState s"
  by (cases reply) (simp_all add: add_patch_def)

lemma add_refetch_listen:
  "listen s \<Longrightarrow> dataState (snd (add_refetch data reply fetched s)) = dataState s"
  by (cases reply) (simp_all add: add_refetch_def)

lemma add_refetch_calls:
  "\<not> listen s \<Longrightarrow>
     calls (snd (add_refetch data (Inr rcd) fetched s))
       = calls s @ [Create data, GetList (page s) (perPage s)]"
  by (simp add: add_refetch_def col_fetch_data_calls perPage_def)

lemma add_refetch_snapshot:
  "\<not> listen s \<Longrightarrow>
     dataState (snd (add_refetch data (Inr rcd) (Inr response) s)) = Value (items response)"
  by (simp add: add_refetch_def col_fetch_data_ok)

subsection \<open>A subscription exists in listen mode only\<close>

lemma step_listen_inv: "listen_inv l c \<Longrightarrow> listen_inv l (step c e)"
  by (cases c; cases e)
     (auto simp: listen_inv_def col_fetch_begin_def col_fetch_settle_def open_subscription_def
        stop_def split: option.splits sum.splits list.splits)

lemma run_listen_inv: "listen_inv l c \<Longrightarrow> listen_inv l (run c evs)"
  unfolding run_def by (induction evs arbitrary: c) (simp_all add: step_listen_inv)

lemma subscription_only_in_listen_mode:
  "unsubscribe (fst (run (new_CollectionState l f ps, []) evs)) \<noteq> None
   \<Longrightarrow> listen (fst (run (new_CollectionState l f ps, []) evs))"
proof -
  have "listen_inv l (new_CollectionState l f ps, [])"
    by (simp add: listen_inv_def new_CollectionState_def)
  then have "listen_inv l (run (new_CollectionState l f ps, []) evs)"
    by (rule run_listen_inv)
  then show "unsubscribe (fst (run (new_CollectionState l f ps, []) evs)) \<noteq> None
   \<Longrightarrow> listen (fst (run (new_CollectionState l f ps, []) evs))"
    by (auto simp: listen_inv_def)
qed

text \<open>Once the teardown closure is stored, \<^verbatim>\<open>start\<close> changes nothing.\<close>

lemma start_when_subscribed:
  "listen s \<Longrightarrow> unsubscribe s = Some t \<Longrightarrow> start reply thrown s = s"
  "listen s \<Longrightarrow> unsubscribe s = Some t \<Longrightarrow> step (s, q) Start = (s, q)"
  by (simp_all add: start_def subscribe_to_data_def)

text \<open>Without a teardown closure, \<^verbatim>\<open>stop\<close> changes nothing.\<close>

lemma stop_when_idle: "unsubscribe s = None \<Longrightarrow> stop s = s"
  by (simp add: stop_def)

section \<open>Basic facts about the document adapter\<close>

lemma set_data_Null: "set_data Null s = s\<lparr>dataState := Null\<rparr>"
  by (simp add: set_data_def)

lemma set_data_dataState: "dataState (set_data v s) = v"
  by (cases v) (simp_all add: set_data_def save_begin_def Let_def)

text \<open>With autosave, an assignment of a record issues one \<^verbatim>\<open>update\<close> at once.\<close>

lemma set_data_autosave_calls:
  "autosaveEnabled s \<Longrightarrow>
     calls (set_data (Value d) s) = calls s @ [Update (rec_id d) (updateData d)]"
  by (simp add: set_data_def save_begin_def Let_def)

text \<open>A rejected background save is stored and not thrown.\<close>

lemma autosave_settle_failure:
  "autosave_settle (Inl err) s = s\<lparr>error := Some err, loading := False\<rparr>"
  by (simp add: autosave_settle_def save_settle_def)

text \<open>
  An accepted background save of a non-listening adapter assigns the server's record
  through the setter, which starts the next save.
\<close>

lemma autosave_settle_saves_again:
  "autosaveEnabled s \<Longrightarrow> \<not> listen s \<Longrightarrow>
     calls (autosave_settle (Inr rcd) s) = calls s @ [Update (rec_id rcd) (updateData rcd)]"
  by (simp add: autosave_settle_def save_settle_def set_data_def save_begin_def Let_def)

lemma rec_fetch_fail_by_id:
  "nonempty (recordId s) = Some i \<Longrightarrow>
     rec_fetch_data (Inl err) lst s
       = s\<lparr>dataState := Null, loading := False, error := Some err,
           calls := calls s @ [GetOne i]\<rparr>"
  by (simp add: rec_fetch_data_def set_data_Null)

lemma rec_fetch_fail_by_filter:
  "nonempty (recordId s) = None \<Longrightarrow> nonempty (recordFilterQuery s) = Some f \<Longrightarrow>
     rec_fetch_data one (Inl err) s
       = s\<lparr>dataState := Null, loading := False, error := Some err,
           calls := calls s @ [GetList (Fin 1) 1]\<rparr>"
  by (simp add: rec_fetch_data_def set_data_Null)

lemma updateData_lookup:
  "map_of (updateData d) k = (if k \<in> set reserved then None else map_of d k)"
  unfolding updateData_def by (induction d) auto

lemma save_absent:
  "dataState s = Undefined \<or> dataState s = Null \<Longrightarrow> save reply s = (Inr None, s)"
  by (auto simp: save_def save_begin_def)

lemma save_ok_result:
  "dataState s = Value d \<Longrightarrow> fst (save (Inr rcd) s) = Inr (Some rcd)"
  by (simp add: save_def save_begin_def save_settle_def)

lemma save_ok_snapshot:
  "dataState s = Value d \<Longrightarrow>
     dataState (snd (save (Inr rcd) s)) = (if listen s then Value d else Value rcd)"
  by (simp add: save_def save_begin_def save_settle_def set_data_dataState)

lemma save_loading:
  "dataState s = Value d \<Longrightarrow> loading (snd (save reply s)) = False"
  by (cases reply) (simp_all add: save_def save_begin_def save_settle_def)

lemma save_calls:
  "dataState s = Value d \<Longrightarrow> listen s \<or> \<not> autosaveEnabled s \<Longrightarrow>
     calls (snd (save reply s)) = calls s @ [Update (rec_id d) (updateData d)]"
  by (cases reply) (auto simp: save_def save_begin_def save_settle_def set_data_def Let_def)

lemma save_calls_first:
  "dataState s = Value d \<Longrightarrow>
     \<exists>rest. calls (snd (save reply s)) = calls s @ Update (rec_id d) (updateData d) # rest"
  by (cases reply) (auto simp: save_def save_begin_def save_settle_def set_data_def Let_def)

lemma save_calls_failure:
  "dataState s = Value d \<Longrightarrow>
     calls (snd (save (Inl err) s)) = calls s @ [Update (rec_id d) (updateData d)]"
  by (simp add: save_def save_begin_def save_settle_def)

lemma save_failure:
  "dataState r = Value d \<Longrightarrow> fst (save (Inl err) r) = Inl err"
  "dataState r = Value d \<Longrightarrow> error (snd (save (Inl err) r)) = Some err"
  by (simp_all add: save_def save_begin_def save_settle_def)

lemma login_failure:
  "login email password (Inl err) u = (Inl err, u\<lparr>auth_loading := False\<rparr>)"
  by (simp add: login_def)

section \<open>A failing fetch\<close>

text \<open>
  Claim C1, as amended. A failing fetch sets the error state and clears the loading flag
  on both adapters. On the collection adapter the snapshot becomes the empty sequence and
  the page and the totals are kept. On the document adapter, whether it fetches by id or
  by filter, the snapshot is reset to \<^verbatim>\<open>null\<close>; the previous snapshot is not kept.
\<close>

theorem failed_fetch:
  "col_fetch_data (Inl err) s =
     s\<lparr>dataState := Value [], loading := False, error := Some err,
       calls := calls s @ [GetList (page s) (perPage s)]\<rparr>
   \<and> (nonempty (recordId r) = Some i \<longrightarrow>
        rec_fetch_data (Inl err) lst r =
          r\<lparr>dataState := Null, loading := False, error := Some err,
            calls := calls r @ [GetOne i]\<rparr>)
   \<and> (nonempty (recordId r) = None \<and> nonempty (recordFilterQuery r) = Some f \<longrightarrow>
        rec_fetch_data one (Inl err) r =
          r\<lparr>dataState := Null, loading := False, error := Some err,
            calls := calls r @ [GetList (Fin 1) 1]\<rparr>)"
  by (simp add: col_fetch_fail rec_fetch_fail_by_id rec_fetch_fail_by_filter)

theorem failed_fetch_witness:
  "dataState (col_fetch_data (Inl ''offline'') ex_listening) = Value []
   \<and> totalItems (col_fetch_data (Inl ''offline'') ex_listening) = 2
   \<and> error (col_fetch_data (Inl ''offline'') ex_listening) = Some ''offline''
   \<and> dataState (rec_fetch_data (Inl ''offline'') (Inl ''unused'') ex_doc) = Null
   \<and> error (rec_fetch_data (Inl ''offline'') (Inl ''unused'') ex_doc) = Some ''offline''
   \<and> dataState (rec_fetch_data (Inl ''unused'') (Inl ''offline'') ex_doc_by_filter) = Null
   \<and> error (rec_fetch_data (Inl ''unused'') (Inl ''offline'') ex_doc_by_filter)
       = Some ''offline''"
  using failed_fetch [of "''offline''" ex_listening ex_doc "''a''" "Inl ''unused''"
      "''title = A''" "Inl ''unused''"]
    failed_fetch [of "''offline''" ex_listening ex_doc_by_filter "''a''" "Inl ''unused''"
      "''title = A''" "Inl ''unused''"]
  by (simp add: ex_document_simps ex_collection_simps ex_records)

text \<open>
  The claim as stated fails on the document adapter: a fetch that fails after a record
  was loaded replaces the record by \<^verbatim>\<open>null\<close>.
\<close>

theorem failed_document_fetch_counterexample:
  "dataState ex_doc = Value ex_a
   \<and> dataState (rec_fetch_data (Inl ''offline'') (Inl ''unused'') ex_doc) \<noteq> dataState ex_doc
   \<and> dataState (rec_fetch_data (Inl ''offline'') (Inl ''unused'') ex_doc) = Null"
  by (simp add: ex_document_simps ex_records)

section \<open>Autosave\<close>

text \<open>
  Claim C2. On a non-listening document adapter with autosave, \<^verbatim>\<open>updateField\<close> assigns
  the patched record and thereby issues one \<^verbatim>\<open>update\<close>; when the server accepts it,
  \<^verbatim>\<open>save\<close> assigns the answer through the same setter and a second \<^verbatim>\<open>update\<close> is
  issued: the one field assignment leads to two saves (and to one more after every
  further accepted answer), not to exactly one.
\<close>

theorem autosave_saves_again:
  "autosaveEnabled ex_autosave \<and> \<not> listen ex_autosave
   \<and> dataState ex_autosave = Value ex_a
   \<and> calls (snd (updateField ''title'' (Str ''B'') (Inl ''unused'') ex_autosave))
       = calls ex_autosave @ [Update (Some (Str ''a'')) [(''title'', Str ''B'')]]
   \<and> calls (autosave_settle (Inr ex_aB)
              (snd (updateField ''title'' (Str ''B'') (Inl ''unused'') ex_autosave)))
       = calls ex_autosave @ [Update (Some (Str ''a'')) [(''title'', Str ''B'')],
                              Update (Some (Str ''a'')) [(''title'', Str ''B'')]]"
  by (simp add: ex_document_simps ex_records)

section \<open>Reconciliation of live events\<close>

text \<open>
  Claim C3, as amended. The collection adapter of src/unnamed/part_002 patches the snapshot
  in place on every live event (an unset or empty snapshot counts as the empty
  sequence): a create event appends the record at the end, an update
  event replaces the items with the event's identifier where they stand (so the sequence
  of identifiers is unchanged), a delete event removes them and keeps the order of the
  rest, an update or delete whose identifier is not in the snapshot leaves the items as
  they are, and no event issues a remote call or changes the page or the totals. The
  adapter of src/lib/data/collection.svelte.ts does not patch: on every event it issues
  one \<^verbatim>\<open>getList\<close> for the current page and the snapshot becomes the items of the answer.
\<close>

theorem live_event_patch_in_place:
  "dataState (on_event_patch ev s) =
     Value (if action ev = ''create'' then items_of (dataState s) @ [sub_record ev]
            else if action ev = ''update'' then
              map (\<lambda>item. if rec_id item = rec_id (sub_record ev) then sub_record ev else item)
                (items_of (dataState s))
            else if action ev = ''delete'' then
              filter (\<lambda>item. rec_id item \<noteq> rec_id (sub_record ev)) (items_of (dataState s))
            else items_of (dataState s))
   \<and> ((action ev = ''update'' \<or> action ev = ''delete'')
        \<and> rec_id (sub_record ev) \<notin> rec_id ` set (items_of (dataState s))
       \<longrightarrow> dataState (on_event_patch ev s) = Value (items_of (dataState s)))
   \<and> (action ev = ''update''
       \<longrightarrow> map rec_id (items_of (dataState (on_event_patch ev s)))
           = map rec_id (items_of (dataState s)))
   \<and> calls (on_event_patch ev s) = calls s
   \<and> page (on_event_patch ev s) = page s
   \<and> totalPages (on_event_patch ev s) = totalPages s
   \<and> totalItems (on_event_patch ev s) = totalItems s
   \<and> calls (on_event_refetch ev reply s) = calls s @ [GetList (page s) (perPage s)]
   \<and> dataState (on_event_refetch ev (Inr response) s) = Value (items response)"
proof (intro conjI impI)
  show "dataState (on_event_patch ev s) =
     Value (if action ev = ''create'' then items_of (dataState s) @ [sub_record ev]
            else if action ev = ''update'' then
              map (\<lambda>item. if rec_id item = rec_id (sub_record ev) then sub_record ev else item)
                (items_of (dataState s))
            else if action ev = ''delete'' then
              filter (\<lambda>item. rec_id item \<noteq> rec_id (sub_record ev)) (items_of (dataState s))
            else items_of (dataState s))"
    by (rule on_event_patch_data)
next
  assume "(action ev = ''update'' \<or> action ev = ''delete'')
        \<and> rec_id (sub_record ev) \<notin> rec_id ` set (items_of (dataState s))"
  then show "dataState (on_event_patch ev s) = Value (items_of (dataState s))"
    by (auto simp: on_event_patch_data map_replace_unmatched filter_unmatched)
next
  assume "action ev = ''update''"
  then show "map rec_id (items_of (dataState (on_event_patch ev s)))
           = map rec_id (items_of (dataState s))"
    by (simp add: on_event_patch_data map_replace_ids)
qed (simp_all add: on_event_patch_rest on_event_refetch_def col_fetch_data_calls col_fetch_data_ok)

theorem live_event_patch_in_place_witness:
  "dataState (on_event_patch (RecordSubscription ''update'' ex_a2) ex_listening)
     = Value [ex_a2, ex_b]
   \<and> dataState (on_event_patch (RecordSubscription ''delete'' ex_a2) ex_listening)
     = Value [ex_b]
   \<and> dataState (on_event_patch (RecordSubscription ''update'' ex_new) ex_listening)
     = Value [ex_a, ex_b]
   \<and> dataState (on_event_patch (RecordSubscription ''create'' ex_a2) ex_listening)
     = Value [ex_a, ex_b, ex_a2]
   \<and> calls (on_event_patch (RecordSubscription ''update'' ex_a2) ex_listening)
     = [GetList (Fin 1) 50, Subscribe ''*'']"
  using live_event_patch_in_place [of "RecordSubscription ''update'' ex_a2" ex_listening]
    live_event_patch_in_place [of "RecordSubscription ''delete'' ex_a2" ex_listening]
    live_event_patch_in_place [of "RecordSubscription ''update'' ex_new" ex_listening]
    live_event_patch_in_place [of "RecordSubscription ''create'' ex_a2" ex_listening]
  by (simp add: ex_collection_simps ex_records)

text \<open>
  The claim as stated fails on src/lib/data/collection.svelte.ts: a create event makes the
  listening adapter fetch, and the snapshot is the server's page, not the old snapshot
  with the record appended.
\<close>

theorem live_event_refetch_counterexample:
  "dataState (on_event_refetch (RecordSubscription ''create'' ex_a2)
       (Inr (ListResult [ex_b] (Fin 2) 3)) ex_listening)
     \<noteq> Value (items_of (dataState ex_listening) @ [ex_a2])
   \<and> calls (on_event_refetch (RecordSubscription ''create'' ex_a2)
       (Inr (ListResult [ex_b] (Fin 2) 3)) ex_listening)
     = calls ex_listening @ [GetList (Fin 1) 50]"
  by (simp add: on_event_refetch_def ex_collection_simps ex_records)

section \<open>Adding a record\<close>

text \<open>
  Claim C4, as amended. On the collection adapter of src/unnamed/part_002, a successful
  \<^verbatim>\<open>add\<close> on a non-listening adapter with a loaded snapshot appends the server-confirmed
  record at the end and issues the create call only; in listen mode, the only mode in
  which \<^verbatim>\<open>start\<close> ever opens a subscription, \<^verbatim>\<open>add\<close> leaves the snapshot alone. On the
  adapter of src/lib/data/collection.svelte.ts a successful \<^verbatim>\<open>add\<close> on a non-listening
  adapter does not append: it issues the create call and then one \<^verbatim>\<open>getList\<close> for the
  current page, and the snapshot becomes the items of that answer; in listen mode it
  leaves the snapshot alone as well.
\<close>

theorem add_patch_appends_without_fetch:
  "(\<not> listen s \<and> dataState s = Value xs \<longrightarrow>
      add_patch data (Inr rcd) s =
        (Inr rcd, s\<lparr>dataState := Value (xs @ [rcd]), loading := False, error := None,
                   calls := calls s @ [Create data]\<rparr>))
   \<and> (listen s \<longrightarrow> dataState (snd (add_patch data reply s)) = dataState s)
   \<and> (unsubscribe (fst (run (new_CollectionState l f ps, []) evs)) \<noteq> None
        \<longrightarrow> listen (fst (run (new_CollectionState l f ps, []) evs)))
   \<and> (\<not> listen s \<longrightarrow>
        calls (snd (add_refetch data (Inr rcd) fetched s))
          = calls s @ [Create data, GetList (page s) (perPage s)]
        \<and> dataState (snd (add_refetch data (Inr rcd) (Inr response) s))
          = Value (items response))
   \<and> (listen s \<longrightarrow> dataState (snd (add_refetch data reply fetched s)) = dataState s)"
  by (intro conjI impI)
     (simp_all add: add_patch_appends add_patch_listen subscription_only_in_listen_mode
        add_refetch_calls add_refetch_snapshot add_refetch_listen)

theorem add_patch_appends_without_fetch_witness:
  "add_patch ex_new (Inr ex_b) ex_idle
     = (Inr ex_b, ex_idle\<lparr>dataState := Value [ex_a, ex_b],
                          calls := [GetList (Fin 1) 50, Create ex_new]\<rparr>)
   \<and> snd (add_patch ex_new (Inr ex_b) ex_listening)
     = ex_listening\<lparr>calls := [GetList (Fin 1) 50, Subscribe ''*'', Create ex_new]\<rparr>
   \<and> fst (run (new_CollectionState True None None, []) [Start, Settle ex_reply])
     = ex_listening
   \<and> listen ex_listening \<and> unsubscribe ex_listening = Some (Unsubscribe None)"
  using add_patch_appends_without_fetch [of ex_idle "[ex_a]" ex_new ex_b "Inr ex_b"
      True None None "[Start, Settle ex_reply]" "Inr (ListResult [ex_b, ex_a] (Fin 1) 2)"
      "ListResult [ex_b, ex_a] (Fin 1) 2"]
    add_patch_appends_without_fetch [of ex_listening "[ex_a]" ex_new ex_b "Inr ex_b"
      True None None "[Start, Settle ex_reply]" "Inr (ListResult [ex_b, ex_a] (Fin 1) 2)"
      "ListResult [ex_b, ex_a] (Fin 1) 2"]
  by (simp add: add_patch_def run_def ex_collection_simps ex_records)

text \<open>
  The claim as stated fails on src/lib/data/collection.svelte.ts: after the create call
  the non-listening adapter fetches, and the snapshot is the server's page (here sorted
  with the new record first), not the old snapshot with the record appended.
\<close>

theorem add_refetch_counterexample:
  "\<not> listen ex_idle \<and> dataState ex_idle = Value [ex_a]
   \<and> dataState (snd (add_refetch ex_new (Inr ex_b) (Inr (ListResult [ex_b, ex_a] (Fin 1) 2)) ex_idle))
       \<noteq> Value ([ex_a] @ [ex_b])
   \<and> calls (snd (add_refetch ex_new (Inr ex_b) (Inr (ListResult [ex_b, ex_a] (Fin 1) 2)) ex_idle))
       = calls ex_idle @ [Create ex_new, GetList (Fin 1) 50]"
  by (simp add: add_refetch_def ex_collection_simps ex_records)

section \<open>Failures of remote calls\<close>

text \<open>
  Claim C5, as amended. When the remote call of \<^verbatim>\<open>add\<close>, \<^verbatim>\<open>update\<close> or \<^verbatim>\<open>remove\<close> (in
  both versions of the collection adapter) or of \<^verbatim>\<open>save\<close> fails, the error is stored in
  the adapter's error state and rethrown to the caller. When the remote call of \<^verbatim>\<open>login\<close>
  fails, the error is rethrown and the loading flag is cleared; the auth adapter has no
  error state, and nothing else of it changes. When the remote call of a fetch fails,
  the error is stored in the error state and not thrown (\<^verbatim>\<open>fetch_data\<close> has no error
  result), also when the fetch runs inside a successful \<^verbatim>\<open>add\<close>.
\<close>

theorem failure_propagation:
  "fst (add_patch data (Inl err) s) = Inl err
   \<and> error (snd (add_patch data (Inl err) s)) = Some err
   \<and> fst (update_patch i data (Inl err) s) = Inl err
   \<and> error (snd (update_patch i data (Inl err) s)) = Some err
   \<and> fst (remove_patch i (Inl err) s) = Inl err
   \<and> error (snd (remove_patch i (Inl err) s)) = Some err
   \<and> fst (add_refetch data (Inl err) fetched s) = Inl err
   \<and> error (snd (add_refetch data (Inl err) fetched s)) = Some err
   \<and> fst (update_refetch i data (Inl err) fetched s) = Inl err
   \<and> error (snd (update_refetch i data (Inl err) fetched s)) = Some err
   \<and> fst (remove_refetch i (Inl err) fetched s) = Inl err
   \<and> error (snd (remove_refetch i (Inl err) fetched s)) = Some err
   \<and> (dataState r = Value d \<longrightarrow>
        fst (save (Inl err) r) = Inl err \<and> error (snd (save (Inl err) r)) = Some err)
   \<and> login email password (Inl err) u = (Inl err, u\<lparr>auth_loading := False\<rparr>)
   \<and> error (col_fetch_data (Inl err) s) = Some err
   \<and> (nonempty (recordId r) = Some j \<longrightarrow> error (rec_fetch_data (Inl err) lst r) = Some err)
   \<and> (nonempty (recordId r) = None \<and> nonempty (recordFilterQuery r) = Some f \<longrightarrow>
        error (rec_fetch_data one (Inl err) r) = Some err)
   \<and> (\<not> listen s \<longrightarrow>
        fst (add_refetch data (Inr rcd) (Inl err) s) = Inr rcd
        \<and> error (snd (add_refetch data (Inr rcd) (Inl err) s)) = Some err)"
  by (simp add: patch_failure refetch_failure save_failure login_failure col_fetch_fail
      rec_fetch_fail_by_id rec_fetch_fail_by_filter add_refetch_fetch_failure)

theorem failure_propagation_witness:
  "save (Inl ''offline'') ex_doc
     = (Inl ''offline'', ex_doc\<lparr>error := Some ''offline'',
          calls := [GetOne ''a'', Update (Some (Str ''a'')) [(''title'', Str ''A'')]]\<rparr>)
   \<and> error (rec_fetch_data (Inl ''offline'') (Inl ''unused'') ex_doc) = Some ''offline''
   \<and> error (rec_fetch_data (Inl ''unused'') (Inl ''offline'') ex_doc_by_filter)
       = Some ''offline''
   \<and> add_refetch ex_new (Inr ex_b) (Inl ''offline'') ex_idle
     = (Inr ex_b, ex_idle\<lparr>dataState := Value [], error := Some ''offline'',
          calls := [GetList (Fin 1) 50, Create ex_new, GetList (Fin 1) 50]\<rparr>)"
  using failure_propagation [of ex_new "''offline''" ex_idle "''a''" "Inl ''unused''" ex_doc
      ex_a "''u''" "''p''" ex_anonymous "''a''" "Inl ''unused''" "''title = A''"
      "Inl ''unused''" ex_b]
    failure_propagation [of ex_new "''offline''" ex_idle "''a''" "Inl ''unused''"
      ex_doc_by_filter ex_a "''u''" "''p''" ex_anonymous "''a''" "Inl ''unused''"
      "''title = A''" "Inl ''unused''" ex_b]
  by (simp add: add_refetch_def ex_document_simps ex_collection_simps ex_records)

text \<open>
  The claim as stated fails for \<^verbatim>\<open>login\<close>: after a rejected login the auth adapter is in
  the state it was in before the call, so no part of it holds the error.
\<close>

theorem login_failure_counterexample:
  "login ''user@example.org'' ''wrong'' (Inl ''Failed to authenticate.'') ex_anonymous
     = (Inl ''Failed to authenticate.'', ex_anonymous)"
  by (simp add: login_def ex_anonymous_def)

section \<open>Saving a document\<close>

text \<open>
  Claim C6, as amended. When the snapshot of a document adapter is absent, \<^verbatim>\<open>save\<close>
  returns none and changes nothing (so it issues no remote call). When the snapshot is a
  record, \<^verbatim>\<open>save\<close> on every adapter issues an update for the record's identifier whose
  payload is the record without the reserved fields \<open>id\<close>, \<open>created\<close>, \<open>updated\<close>,
  \<open>collectionId\<close> and \<open>collectionName\<close>: this is the first remote call it issues, and
  the only one when the update is rejected or when the adapter is in listen mode or has
  no autosave. On success it returns the server-confirmed record. The snapshot is
  replaced by that record exactly when the adapter is not in listen mode; in listen mode
  it is left as it is, whether or not a subscription is open.
\<close>

theorem save_strips_reserved_fields:
  "(dataState s = Undefined \<or> dataState s = Null \<longrightarrow> save reply s = (Inr None, s))
   \<and> (dataState s = Value d \<longrightarrow>
        fst (save (Inr rcd) s) = Inr (Some rcd)
        \<and> dataState (snd (save (Inr rcd) s)) = (if listen s then Value d else Value rcd)
        \<and> loading (snd (save reply s)) = False
        \<and> (\<exists>rest. calls (snd (save reply s))
                     = calls s @ Update (rec_id d) (updateData d) # rest)
        \<and> calls (snd (save (Inl err) s)) = calls s @ [Update (rec_id d) (updateData d)]
        \<and> (listen s \<or> \<not> autosaveEnabled s \<longrightarrow>
             calls (snd (save reply s)) = calls s @ [Update (rec_id d) (updateData d)]))
   \<and> map_of (updateData d) k = (if k \<in> set reserved then None else map_of d k)
   \<and> set reserved = {''id'', ''created'', ''updated'', ''collectionId'', ''collectionName''}"
proof (intro conjI impI)
  show "set reserved = {''id'', ''created'', ''updated'', ''collectionId'', ''collectionName''}"
    by (simp add: reserved_def)
qed (simp_all add: save_absent save_ok_result save_ok_snapshot save_loading save_calls
      save_calls_first save_calls_failure updateData_lookup)

theorem save_strips_reserved_fields_witness:
  "save (Inr ex_full2) (new_RecordState False False (Some ''r1'') None)
     = (Inr None, new_RecordState False False (Some ''r1'') None)
   \<and> calls (snd (save (Inr ex_full2) ex_doc_r1))
     = [GetOne ''r1'', Update (Some (Str ''r1'')) [(''name'', Str ''A'')]]
   \<and> fst (save (Inr ex_full2) ex_doc_r1) = Inr (Some ex_full2)
   \<and> dataState (snd (save (Inr ex_full2) ex_doc_r1)) = Value ex_full2
   \<and> calls (snd (save (Inl ''offline'') ex_autosave))
     = calls ex_autosave @ [Update (Some (Str ''a'')) [(''title'', Str ''A'')]]
   \<and> take 3 (calls (snd (save (Inr ex_aB) ex_autosave)))
     = calls ex_autosave @ [Update (Some (Str ''a'')) [(''title'', Str ''A'')]]"
  using save_strips_reserved_fields
      [where s="new_RecordState False False (Some ''r1'') None" and reply="Inr ex_full2"
        and d=ex_full and rcd=ex_full2 and err="''offline''" and k="''id''"]
    save_strips_reserved_fields
      [where s=ex_doc_r1 and reply="Inr ex_full2" and d=ex_full and rcd=ex_full2
        and err="''offline''" and k="''id''"]
    save_strips_reserved_fields
      [where s=ex_autosave and reply="Inr ex_aB" and d=ex_a and rcd=ex_aB
        and err="''offline''" and k="''id''"]
  by (simp add: ex_document_simps ex_records)

text \<open>
  The claim as stated fails on an adapter in listen mode that has no open subscription
  (here: fetched with \<^verbatim>\<open>refetch\<close>, never started): \<^verbatim>\<open>save\<close> returns the server's record
  and the snapshot stays the old one.
\<close>

theorem save_listen_mode_counterexample:
  "listen ex_doc_listen \<and> unsubscribe ex_doc_listen = None
   \<and> dataState ex_doc_listen = Value ex_a
   \<and> fst (save (Inr ex_a2) ex_doc_listen) = Inr (Some ex_a2)
   \<and> dataState (snd (save (Inr ex_a2) ex_doc_listen)) = Value ex_a
   \<and> dataState (snd (save (Inr ex_a2) ex_doc_listen)) \<noteq> Value ex_a2"
  by (simp add: ex_document_simps ex_records)

section \<open>Repeated start\<close>

text \<open>
  Claim C7. A listening collection adapter is started, stopped and started again before
  the first fetch is answered. \<^verbatim>\<open>stop\<close> finds no teardown closure, and the second
  \<^verbatim>\<open>start\<close> passes the guard of \<^verbatim>\<open>subscribe_to_data\<close>, because the closure is stored
  only after the fetch. When the first answer arrives the subscription is opened and the
  closure stored; when the second answer arrives \<^verbatim>\<open>subscribe\<close> is called again, while
  the first subscription is open.
\<close>

theorem restart_subscribes_twice:
  "unsubscribe (fst (run (new_CollectionState True None None, [])
       [Start, Stop, Start, Settle ex_reply])) = Some (Unsubscribe None)
   \<and> calls (fst (run (new_CollectionState True None None, [])
       [Start, Stop, Start, Settle ex_reply]))
     = [GetList (Fin 1) 50, GetList (Fin 1) 50, Subscribe ''*'']
   \<and> calls (fst (run (new_CollectionState True None None, [])
       [Start, Stop, Start, Settle ex_reply, Settle ex_reply]))
     = [GetList (Fin 1) 50, GetList (Fin 1) 50, Subscribe ''*'', Subscribe ''*'']"
  by (simp add: run_def stop_def ex_collection_simps ex_records)

section \<open>Pagination\<close>

text \<open>
  Claim C8, as amended. \<^verbatim>\<open>goToPage(p)\<close> when \<open>p >= 1 && p <= totalPages\<close> is false
  (\<open>p\<close> outside the range, or \<^verbatim>\<open>NaN\<close>), \<^verbatim>\<open>nextPage\<close> when \<open>page < totalPages\<close> is false
  and \<^verbatim>\<open>prevPage\<close> when \<open>page > 1\<close> is false leave the whole state unchanged: page,
  snapshot, totals, and no fetch. Otherwise the page counter is set first (to \<open>p\<close>, to
  \<open>page + 1\<close>, to \<open>page - 1\<close>, in double arithmetic) and then exactly one fetch, for the
  new page, is performed; a successful answer of that fetch overwrites \<^verbatim>\<open>totalPages\<close>. On
  whole numbers below \<open>2 ^ 53\<close> the counter moves by exactly one. When page and
  \<^verbatim>\<open>totalPages\<close> are whole numbers below \<open>2 ^ 53\<close> with the page in \<open>[1, totalPages]\<close>,
  the page that any of the three operations leaves lies in \<open>[1, totalPages]\<close> for the
  \<^verbatim>\<open>totalPages\<close> of the state before the operation. Nothing clamps the page beyond
  that: \<^verbatim>\<open>prevPage\<close> tests the lower bound only, \<^verbatim>\<open>nextPage\<close> the upper bound only.
\<close>

theorem navigation_guards:
  "(\<not> (js_ge p (Fin 1) \<and> js_le p (totalPages s)) \<longrightarrow> goToPage p reply s = s)
   \<and> (\<not> js_lt (page s) (totalPages s) \<longrightarrow> nextPage reply s = s)
   \<and> (\<not> js_gt (page s) (Fin 1) \<longrightarrow> prevPage reply s = s)
   \<and> (js_ge p (Fin 1) \<and> js_le p (totalPages s) \<longrightarrow>
        goToPage p reply s = col_fetch_data reply (s\<lparr>page := p\<rparr>)
        \<and> page (goToPage p reply s) = p
        \<and> calls (goToPage p reply s) = calls s @ [GetList p (perPage s)])
   \<and> (js_lt (page s) (totalPages s) \<longrightarrow>
        nextPage reply s = col_fetch_data reply (s\<lparr>page := js_inc (page s)\<rparr>)
        \<and> page (nextPage reply s) = js_inc (page s)
        \<and> calls (nextPage reply s) = calls s @ [GetList (js_inc (page s)) (perPage s)])
   \<and> (js_gt (page s) (Fin 1) \<longrightarrow>
        prevPage reply s = col_fetch_data reply (s\<lparr>page := js_dec (page s)\<rparr>)
        \<and> page (prevPage reply s) = js_dec (page s)
        \<and> calls (prevPage reply s) = calls s @ [GetList (js_dec (page s)) (perPage s)])
   \<and> totalPages (col_fetch_data (Inr response) s) = res_totalPages response
   \<and> (0 \<le> n \<and> n + 1 < 2 ^ 53 \<longrightarrow> js_inc (Fin (of_int n)) = Fin (of_int (n + 1)))
   \<and> (1 \<le> n \<and> n < 2 ^ 53 \<longrightarrow> js_dec (Fin (of_int n)) = Fin (of_int (n - 1)))
   \<and> (page s = Fin (of_int k) \<and> totalPages s = Fin (of_int t) \<and> 1 \<le> k \<and> k \<le> t \<and> t < 2 ^ 53
       \<longrightarrow>
        page (nextPage reply s) = Fin (of_int (if k < t then k + 1 else k))
        \<and> page (prevPage reply s) = Fin (of_int (if 1 < k then k - 1 else k))
        \<and> page (goToPage (Fin (of_int m)) reply s)
            = Fin (of_int (if 1 \<le> m \<and> m \<le> t then m else k))
        \<and> js_ge (page (nextPage reply s)) (Fin 1) \<and> js_le (page (nextPage reply s)) (totalPages s)
        \<and> js_ge (page (prevPage reply s)) (Fin 1) \<and> js_le (page (prevPage reply s)) (totalPages s)
        \<and> js_ge (page (goToPage p reply s)) (Fin 1) \<and> js_le (page (goToPage p reply s)) (totalPages s))"
proof (intro conjI impI)
  assume a: "page s = Fin (of_int k) \<and> totalPages s = Fin (of_int t) \<and> 1 \<le> k \<and> k \<le> t \<and> t < 2 ^ 53"
  then have h: "page s = Fin (of_int k)" "totalPages s = Fin (of_int t)" "1 \<le> k" "k \<le> t" "t < 2 ^ 53"
    by simp_all
  show "page (nextPage reply s) = Fin (of_int (if k < t then k + 1 else k))"
    using h by (rule whole_pages(1))
  show "page (prevPage reply s) = Fin (of_int (if 1 < k then k - 1 else k))"
    using h by (rule whole_pages(2))
  show "page (goToPage (Fin (of_int m)) reply s)
            = Fin (of_int (if 1 \<le> m \<and> m \<le> t then m else k))"
    using h by (rule whole_pages(3))
  show "js_ge (page (nextPage reply s)) (Fin 1)" "js_le (page (nextPage reply s)) (totalPages s)"
    using whole_pages_in_range(1) [OF h] by simp_all
  show "js_ge (page (prevPage reply s)) (Fin 1)" "js_le (page (prevPage reply s)) (totalPages s)"
    using whole_pages_in_range(2) [OF h] by simp_all
  show "js_ge (page (goToPage p reply s)) (Fin 1)" "js_le (page (goToPage p reply s)) (totalPages s)"
    using whole_pages_in_range(3) [OF h] by simp_all
next
  assume "0 \<le> n \<and> n + 1 < 2 ^ 53"
  then show "js_inc (Fin (of_int n)) = Fin (of_int (n + 1))"
    by (intro js_inc_whole) simp_all
next
  assume "1 \<le> n \<and> n < 2 ^ 53"
  then show "js_dec (Fin (of_int n)) = Fin (of_int (n - 1))"
    by (intro js_dec_whole) simp_all
next
  assume g: "js_ge p (Fin 1) \<and> js_le p (totalPages s)"
  show "goToPage p reply s = col_fetch_data reply (s\<lparr>page := p\<rparr>)"
    "page (goToPage p reply s) = p"
    "calls (goToPage p reply s) = calls s @ [GetList p (perPage s)]"
    using goToPage_accepted [OF g] by simp_all
next
  assume g: "js_lt (page s) (totalPages s)"
  show "nextPage reply s = col_fetch_data reply (s\<lparr>page := js_inc (page s)\<rparr>)"
    "page (nextPage reply s) = js_inc (page s)"
    "calls (nextPage reply s) = calls s @ [GetList (js_inc (page s)) (perPage s)]"
    using nextPage_accepted [OF g] by simp_all
next
  assume g: "js_gt (page s) (Fin 1)"
  show "prevPage reply s = col_fetch_data reply (s\<lparr>page := js_dec (page s)\<rparr>)"
    "page (prevPage reply s) = js_dec (page s)"
    "calls (prevPage reply s) = calls s @ [GetList (js_dec (page s)) (perPage s)]"
    using prevPage_accepted [OF g] by simp_all
qed (simp_all add: goToPage_rejected nextPage_rejected prevPage_rejected
      col_fetch_data_totalPages)

theorem navigation_guards_witness:
  "goToPage (Fin 2) ex_reply ex_listening = ex_listening
   \<and> nextPage ex_reply ex_listening = ex_listening
   \<and> prevPage ex_reply ex_listening = ex_listening
   \<and> page (goToPage (Fin 2) ex_reply ex_paged) = Fin 2
   \<and> calls (goToPage (Fin 2) ex_reply ex_paged) = calls ex_paged @ [GetList (Fin 2) 2]
   \<and> page (nextPage ex_reply ex_paged) = Fin 2
   \<and> calls (nextPage ex_reply ex_paged) = calls ex_paged @ [GetList (Fin 2) 2]
   \<and> page (prevPage ex_reply ex_shrunk) = Fin 2
   \<and> calls (prevPage ex_reply ex_shrunk) = calls ex_shrunk @ [GetList (Fin 2) 2]
   \<and> js_inc (Fin 3) = Fin 4 \<and> js_dec (Fin 3) = Fin 2"
  using navigation_guards [where p="Fin 2" and s=ex_listening and reply=ex_reply
      and response="ListResult [ex_a, ex_b] (Fin 1) 2" and n=3 and k=1 and t=1 and m=2]
    navigation_guards [where p="Fin 2" and s=ex_paged and reply=ex_reply
      and response="ListResult [ex_a, ex_b] (Fin 1) 2" and n=3 and k=1 and t=3 and m=2]
    navigation_guards [where p="Fin 2" and s=ex_shrunk and reply=ex_reply
      and response="ListResult [ex_a, ex_b] (Fin 1) 2" and n=3 and k=1 and t=3 and m=2]
  by (simp add: nav_eval ex_collection_simps ex_records)

text \<open>
  The claim as stated fails for \<^verbatim>\<open>prevPage\<close>: after the totals shrank to one page while
  the adapter was on page 3, \<^verbatim>\<open>prevPage\<close> moves to page 2, outside \<open>[1, 1]\<close>, and
  fetches it.
\<close>

theorem prevPage_counterexample:
  "page ex_shrunk = Fin 3 \<and> totalPages ex_shrunk = Fin 1
   \<and> page (prevPage (Inr (ListResult [] (Fin 1) 1)) ex_shrunk) = Fin 2
   \<and> totalPages (prevPage (Inr (ListResult [] (Fin 1) 1)) ex_shrunk) = Fin 1
   \<and> calls (prevPage (Inr (ListResult [] (Fin 1) 1)) ex_shrunk)
       = calls ex_shrunk @ [GetList (Fin 2) 2]"
  by (simp add: nav_eval ex_collection_simps ex_records)

section \<open>Duplicate delivery of an update or delete event\<close>

text \<open>
  Claim C9. For every state of the collection adapter (whatever its snapshot, unset and
  empty included) and every update or delete event, handling the event twice gives the
  same snapshot as handling it once: the patching handler reaches the very same state,
  and the refetching handler, given the same answer, the same snapshot.
\<close>

theorem duplicate_event_idempotent:
  "action ev = ''update'' \<or> action ev = ''delete''
   \<Longrightarrow> on_event_patch ev (on_event_patch ev s) = on_event_patch ev s
       \<and> dataState (on_event_refetch ev reply (on_event_refetch ev reply s))
         = dataState (on_event_refetch ev reply s)"
  by (cases "dataState s"; cases reply)
     (auto simp: on_event_patch_def on_event_refetch_def col_fetch_data_def
        col_fetch_settle_def col_fetch_begin_def Let_def)

theorem duplicate_event_idempotent_witness:
  "on_event_patch (RecordSubscription ''update'' ex_a2)
     (on_event_patch (RecordSubscription ''update'' ex_a2) ex_listening)
   = on_event_patch (RecordSubscription ''update'' ex_a2) ex_listening
   \<and> dataState (on_event_patch (RecordSubscription ''update'' ex_a2) ex_listening)
     = Value [ex_a2, ex_b]
   \<and> dataState (on_event_patch (RecordSubscription ''delete'' ex_a2)
        (on_event_patch (RecordSubscription ''delete'' ex_a2) ex_listening))
     = Value [ex_b]"
  using duplicate_event_idempotent [of "RecordSubscription ''update'' ex_a2" ex_listening ex_reply]
    duplicate_event_idempotent [of "RecordSubscription ''delete'' ex_a2" ex_listening ex_reply]
  by (simp add: on_event_patch_data ex_collection_simps ex_records)

section \<open>Updating a field of an absent snapshot\<close>

text \<open>
  Claim C10. When the snapshot of a document adapter is unset or empty, \<^verbatim>\<open>updateField\<close>
  returns none and leaves the whole state as it is: the snapshot, the loading flag, the
  error state, and the trace of remote calls, to which nothing is added.
\<close>

theorem updateField_absent:
  "dataState s = Undefined \<or> dataState s = Null
   \<Longrightarrow> updateField field v reply s = (Inr None, s)"
  by (auto simp: updateField_def)

theorem updateField_absent_witness:
  "updateField ''name'' (Str ''B'') (Inr ex_a) (new_RecordState False True (Some ''a'') None)
     = (Inr None, new_RecordState False True (Some ''a'') None)
   \<and> updateField ''name'' (Str ''B'') (Inr ex_a)
       (rec_fetch_data (Inl ''offline'') (Inl ''unused'') ex_doc)
     = (Inr None, rec_fetch_data (Inl ''offline'') (Inl ''unused'') ex_doc)"
  using updateField_absent [of "new_RecordState False True (Some ''a'') None" "''name''"
      "Str ''B''" "Inr ex_a"]
    updateField_absent [of "rec_fetch_data (Inl ''offline'') (Inl ''unused'') ex_doc"
      "''name''" "Str ''B''" "Inr ex_a"]
  by (simp add: ex_document_simps ex_records)

end
